theory Spec2Isabelle
  imports Main
begin

section \<open>Python values\<close>

text \<open>
  The parser of \<^verbatim>\<open>conceptually.py\<close> receives \<^verbatim>\<open>raw_json: Any\<close>: the decoded JSON answer of
  the language model. The values are those a JSON decoder produces. A float is kept as far as
  Python can observe it here (its truth value): a finite float is \<open>m * 2 ^ e\<close>. A dictionary
  is an association list read with \<open>map_of\<close>, so that it stays executable.
\<close>

datatype pyfloat = Finite int int | Infinite bool | NaN

datatype json =
    JNull
  | JBool bool
  | JInt int
  | JFloat pyfloat
  | JStr string
  | JList "json list"
  | JDict "(string \<times> json) list"

datatype error = TypeError | AttributeError | ExternalError string

text \<open>Python's truth value of an object, as \<^verbatim>\<open>not valid\<close> tests it.\<close>

fun truthy :: "json \<Rightarrow> bool" where
  "truthy JNull = False"
| "truthy (JBool b) = b"
| "truthy (JInt n) = (n \<noteq> 0)"
| "truthy (JFloat (Finite m e)) = (m \<noteq> 0)"
| "truthy (JFloat (Infinite neg)) = True"
| "truthy (JFloat NaN) = True"
| "truthy (JStr s) = (s \<noteq> [])"
| "truthy (JList xs) = (xs \<noteq> [])"
| "truthy (JDict d) = (d \<noteq> [])"

text \<open>\<^verbatim>\<open>d.get(key, default)\<close> on a dictionary with string keys.\<close>

definition dict_get :: "(string \<times> json) list \<Rightarrow> string \<Rightarrow> json \<Rightarrow> json" where
  "dict_get d k dflt = (case map_of d k of None \<Rightarrow> dflt | Some v \<Rightarrow> v)"

section \<open>The data model\<close>

text \<open>
  Modelled from the spec: the class \<^verbatim>\<open>Violation\<close> is imported from \<^verbatim>\<open>..type\<close>, which
  is not among the sources; the spec gives its fields \<^verbatim>\<open>parts\<close>, \<^verbatim>\<open>issue\<close> and
  \<^verbatim>\<open>suggestion\<close>, in this order. Python does not check the annotations, so each field holds
  the object the parser puts there: \<^verbatim>\<open>issue\<close> and \<^verbatim>\<open>suggestion\<close> hold a decoded JSON
  value, \<^verbatim>\<open>parts\<close> holds either a set of strings (\<^verbatim>\<open>{part}\<close>) or the empty dictionary
  (the literal \<^verbatim>\<open>{}\<close>).
\<close>

datatype parts_value = PartSet "string set" | EmptyDict

record Violation =
  parts :: parts_value
  issue :: json
  suggestion :: json

text \<open>
  \<^verbatim>\<open>CSVerdictData\<close>: a dataclass; the field \<^verbatim>\<open>valid\<close> is annotated \<^verbatim>\<open>bool\<close> but holds
  whatever object the parser stores.
\<close>

record CSVerdictData =
  valid :: json
  violations :: "Violation list"

definition PART_MAP :: "(string \<times> string) list" where
  "PART_MAP = [(''[Means]'', ''means''), (''[Ends]'', ''ends'')]"

text \<open>
  \<^verbatim>\<open>_PART_MAP.get(key)\<close>: the key is hashed first, and a list or a dictionary is not
  hashable (\<^verbatim>\<open>TypeError: unhashable type\<close>); a key that is no string equals no key of the
  table.
\<close>

fun PART_MAP_get :: "json \<Rightarrow> error + string option" where
  "PART_MAP_get (JList xs) = Inl TypeError"
| "PART_MAP_get (JDict d) = Inl TypeError"
| "PART_MAP_get (JStr s) = Inr (map_of PART_MAP s)"
| "PART_MAP_get other = Inr None"

text \<open>
  The objects Python can hash among the decoded JSON values: all but lists and
  dictionaries.
\<close>

fun hashable :: "json \<Rightarrow> bool" where
  "hashable (JList xs) = False"
| "hashable (JDict d) = False"
| "hashable other = True"

section \<open>CSVerdictParserModel.__parser\<close>

text \<open>\<^verbatim>\<open>{part} if part else {}\<close>, for \<^verbatim>\<open>part\<close> a string or \<^verbatim>\<open>None\<close>.\<close>

definition parts_of :: "string option \<Rightarrow> parts_value" where
  "parts_of part =
     (case part of
        None \<Rightarrow> EmptyDict
      | Some p \<Rightarrow> if p \<noteq> [] then PartSet {p} else EmptyDict)"

text \<open>
  The object built at lines 104 to 108 for a dictionary entry \<open>t\<close>, once \<^verbatim>\<open>part\<close> is
  known. \<^verbatim>\<open>t.get("suggestion")\<close> is \<^verbatim>\<open>None\<close> for an absent key.
\<close>

definition entry_violation :: "(string \<times> json) list \<Rightarrow> string option \<Rightarrow> Violation" where
  "entry_violation t part =
     \<lparr>parts = parts_of part,
      issue = dict_get t ''issue'' (JStr ''''),
      suggestion = dict_get t ''suggestion'' JNull\<rparr>"

text \<open>
  The loop \<^verbatim>\<open>for t in tmp\<close> (lines 100 to 109); the second argument is the list
  \<^verbatim>\<open>violations\<close> built so far. An exception leaves the loop and the parser.
\<close>

fun parse_entries :: "json list \<Rightarrow> Violation list \<Rightarrow> error + Violation list" where
  "parse_entries [] acc = Inr acc"
| "parse_entries (JDict t # ts) acc =
     (case PART_MAP_get (dict_get t ''part'' (JStr '''')) of
        Inl e \<Rightarrow> Inl e
      | Inr part \<Rightarrow> parse_entries ts (acc @ [entry_violation t part]))"
| "parse_entries (other # ts) acc = parse_entries ts acc"

text \<open>
  Lines 96 to 109: the list \<^verbatim>\<open>violations\<close> before the placeholder is considered. A
  value of the key \<^verbatim>\<open>"violations"\<close> that is no list leaves it empty.
\<close>

definition collect_violations :: "(string \<times> json) list \<Rightarrow> error + Violation list" where
  "collect_violations d =
     (case dict_get d ''violations'' (JList []) of
        JList ts \<Rightarrow> parse_entries ts []
      | _ \<Rightarrow> Inr [])"

text \<open>Lines 90 to 94: the value of \<^verbatim>\<open>valid\<close> after the two coercions.\<close>

definition coerce_valid :: "json \<Rightarrow> json" where
  "coerce_valid v =
     (case v of
        JStr s \<Rightarrow> JBool (s = ''true'')
      | JNull \<Rightarrow> JBool False
      | _ \<Rightarrow> v)"

definition default_vio :: Violation where
  "default_vio = \<lparr>parts = EmptyDict, issue = JStr ''Unknown'', suggestion = JStr ''Unknown''\<rparr>"

definition parser :: "json \<Rightarrow> error + CSVerdictData" where
  "parser raw_json =
     (case raw_json of
        JDict d \<Rightarrow>
          (let v = coerce_valid (dict_get d ''valid'' (JBool False))
           in case collect_violations d of
                Inl e \<Rightarrow> Inl e
              | Inr vios \<Rightarrow>
                  Inr \<lparr>valid = v,
                       violations =
                         (if \<not> truthy v \<and> length vios = 0 then vios @ [default_vio]
                          else vios)\<rparr>)
      | _ \<Rightarrow> Inr \<lparr>valid = JBool False, violations = []\<rparr>)"

section \<open>CSVerdictParserModel: running the analyzer\<close>

text \<open>
  Modelled from the spec: \<^verbatim>\<open>QUSComponent\<close> is imported from \<^verbatim>\<open>..chunker.models\<close>, which is
  not among the sources; the spec gives it the optional string fields \<^verbatim>\<open>means\<close> and
  \<^verbatim>\<open>ends\<close>, the only ones read here.
\<close>

record QUSComponent =
  means :: "string option"
  ends :: "string option"

text \<open>
  Python binds arguments by position and checks no annotation, so the parameters
  \<^verbatim>\<open>model_idx\<close> and \<^verbatim>\<open>component\<close> of \<^verbatim>\<open>analyze_single\<close> hold whatever object the call
  site passes: an integer or a component.
\<close>

datatype pyarg = PyInt int | PyComponent QUSComponent

text \<open>The dictionary \<^verbatim>\<open>values\<close> of line 130, with its two keys in order.\<close>

type_synonym prompt_values = "(string \<times> string option) list"

text \<open>
  \<^verbatim>\<open>LLMAnalyzer.run\<close> and the client are not among the sources: \<open>run\<close> is a parameter, a
  function of its three arguments and of the state \<open>world\<close> of everything outside this module
  (the model behind the client, its usage counters), which returns the pair
  \<^verbatim>\<open>(data, usage)\<close> or raises, and the next state. The field \<open>calls\<close> records the
  invocations of \<^verbatim>\<open>self.__analyzer.run\<close>, in order, so that "without invoking the analyzer"
  can be stated.
\<close>

record ('c, 'w) session =
  calls :: "('c \<times> pyarg \<times> prompt_values) list"
  world :: 'w

type_synonym ('c, 'w, 'u) analyzer_run =
  "'c \<Rightarrow> pyarg \<Rightarrow> prompt_values \<Rightarrow> 'w \<Rightarrow> (error + CSVerdictData \<times> 'u option) \<times> 'w"

definition analyzer_run ::
  "('c, 'w, 'u) analyzer_run \<Rightarrow> 'c \<Rightarrow> pyarg \<Rightarrow> prompt_values \<Rightarrow> ('c, 'w) session
     \<Rightarrow> (error + CSVerdictData \<times> 'u option) \<times> ('c, 'w) session" where
  "analyzer_run run client model_idx vals s =
     (case run client model_idx vals (world s) of
        (r, w') \<Rightarrow> (r, \<lparr>calls = calls s @ [(client, model_idx, vals)], world = w'\<rparr>))"

text \<open>
  \<^verbatim>\<open>analyze_single\<close> (lines 115 to 132). Reading \<^verbatim>\<open>component.means\<close> on an integer raises
  \<^verbatim>\<open>AttributeError\<close>.
\<close>

definition analyze_single ::
  "('c, 'w, 'u) analyzer_run \<Rightarrow> 'c \<Rightarrow> pyarg \<Rightarrow> pyarg \<Rightarrow> ('c, 'w) session
     \<Rightarrow> (error + Violation list \<times> 'u option) \<times> ('c, 'w) session" where
  "analyze_single run client model_idx component s =
     (case component of
        PyInt n \<Rightarrow> (Inl AttributeError, s)
      | PyComponent c \<Rightarrow>
          (case means c of
             None \<Rightarrow> (Inr ([], None), s)
           | Some m \<Rightarrow>
               (case analyzer_run run client model_idx
                       [(''means'', means c), (''ends'', ends c)] s of
                  (Inl e, s') \<Rightarrow> (Inl e, s')
                | (Inr (data, usage), s') \<Rightarrow> (Inr (violations data, usage), s'))))"

text \<open>
  \<^verbatim>\<open>analyze_list\<close> (lines 134 to 150): the list comprehension calls \<^verbatim>\<open>analyze_single\<close>
  from left to right; an exception of one call ends the comprehension.
\<close>

fun analyze_list ::
  "('c, 'w, 'u) analyzer_run \<Rightarrow> 'c \<Rightarrow> pyarg \<Rightarrow> pyarg list \<Rightarrow> ('c, 'w) session
     \<Rightarrow> (error + (Violation list \<times> 'u option) list) \<times> ('c, 'w) session" where
  "analyze_list run client model_idx [] s = (Inr [], s)"
| "analyze_list run client model_idx (component # components) s =
     (case analyze_single run client model_idx component s of
        (Inl e, s') \<Rightarrow> (Inl e, s')
      | (Inr r, s') \<Rightarrow>
          (case analyze_list run client model_idx components s' of
             (Inl e, s'') \<Rightarrow> (Inl e, s'')
           | (Inr rs, s'') \<Rightarrow> (Inr (r # rs), s'')))"

section \<open>ConceptuallySoundAnalyzer.__not_violated\<close>

text \<open>
  Lines 161 to 182. \<^verbatim>\<open>not means\<close> holds for \<^verbatim>\<open>None\<close> and for the empty string. The call
  of line 179 passes \<^verbatim>\<open>(client, component, model_idx)\<close> by position to the parameters
  \<^verbatim>\<open>(client, model_idx, component)\<close> of \<^verbatim>\<open>analyze_single\<close>.
\<close>

definition not_violated ::
  "('c, 'w, 'u) analyzer_run \<Rightarrow> 'c \<Rightarrow> int \<Rightarrow> QUSComponent \<Rightarrow> ('c, 'w) session
     \<Rightarrow> (error + Violation list \<times> 'u option) \<times> ('c, 'w) session" where
  "not_violated run client model_idx component s =
     (if (case means component of None \<Rightarrow> True | Some m \<Rightarrow> m = []) then (Inr ([], None), s)
      else
        (case analyze_single run client (PyComponent component) (PyInt model_idx) s of
           (Inl e, s') \<Rightarrow> (Inl e, s')
         | (Inr (vios, result), s') \<Rightarrow> (Inr (vios, result), s')))"

section \<open>The loop over the entries\<close>

lemma PART_MAP_get_hashable: "hashable k \<Longrightarrow> \<exists>p. PART_MAP_get k = Inr p"
  by (cases k) simp_all

lemma PART_MAP_get_unhashable: "\<not> hashable k \<Longrightarrow> PART_MAP_get k = Inl TypeError"
  by (cases k) simp_all

lemma PART_MAP_get_values:
  "PART_MAP_get k = Inr p \<Longrightarrow>
     (k = JStr ''[Means]'' \<and> p = Some ''means'') \<or> (k = JStr ''[Ends]'' \<and> p = Some ''ends'') \<or>
     (k \<noteq> JStr ''[Means]'' \<and> k \<noteq> JStr ''[Ends]'' \<and> p = None)"
  by (cases k) (auto simp: PART_MAP_def split: if_splits)

text \<open>The list built so far is a prefix of the result, and does not influence the rest.\<close>

lemma parse_entries_acc:
  "parse_entries ts acc =
     (case parse_entries ts [] of Inl e \<Rightarrow> Inl e | Inr vs \<Rightarrow> Inr (acc @ vs))"
proof (induction ts arbitrary: acc)
  case Nil
  show ?case by simp
next
  case (Cons x xs)
  show ?case
  proof (cases x)
    case (JDict t)
    show ?thesis
    proof (cases "PART_MAP_get (dict_get t ''part'' (JStr ''''))")
      case (Inl e)
      with JDict show ?thesis by simp
    next
      case (Inr part)
      let ?v = "entry_violation t part"
      have "parse_entries xs (acc @ [?v]) =
              (case parse_entries xs [] of Inl e \<Rightarrow> Inl e | Inr vs \<Rightarrow> Inr ((acc @ [?v]) @ vs))"
        by (rule Cons.IH)
      moreover have "parse_entries xs [?v] =
              (case parse_entries xs [] of Inl e \<Rightarrow> Inl e | Inr vs \<Rightarrow> Inr ([?v] @ vs))"
        by (rule Cons.IH)
      ultimately show ?thesis using JDict Inr
        by (simp split: sum.splits)
    qed
  qed (use Cons.IH[of acc] in simp_all)
qed

text \<open>
  The loop raises exactly when some dictionary entry has a \<^verbatim>\<open>"part"\<close> that cannot be
  hashed, and what it raises is \<^verbatim>\<open>TypeError\<close>.
\<close>

lemma parse_entries_raises:
  "JDict t \<in> set ts \<Longrightarrow> \<not> hashable (dict_get t ''part'' (JStr '''')) \<Longrightarrow>
     parse_entries ts acc = Inl TypeError"
proof (induction ts arbitrary: acc)
  case Nil
  then show ?case by simp
next
  case (Cons x xs)
  show ?case
  proof (cases x)
    case (JDict u)
    show ?thesis
    proof (cases "PART_MAP_get (dict_get u ''part'' (JStr ''''))")
      case (Inl e)
      then have "e = TypeError"
        by (cases "dict_get u ''part'' (JStr '''')") simp_all
      with Inl JDict show ?thesis by simp
    next
      case (Inr part)
      then have "hashable (dict_get u ''part'' (JStr ''''))"
        by (cases "dict_get u ''part'' (JStr '''')") simp_all
      with Cons.prems JDict have "JDict t \<in> set xs" by auto
      with Cons.IH Cons.prems(2) Inr JDict show ?thesis by simp
    qed
  qed (use Cons in auto)
qed

lemma parse_entries_returns:
  "(\<forall>t. JDict t \<in> set ts \<longrightarrow> hashable (dict_get t ''part'' (JStr ''''))) \<Longrightarrow>
     \<exists>vs. parse_entries ts acc = Inr vs"
proof (induction ts arbitrary: acc)
  case Nil
  show ?case by simp
next
  case (Cons x xs)
  show ?case
  proof (cases x)
    case (JDict u)
    with Cons.prems have "hashable (dict_get u ''part'' (JStr ''''))" by simp
    then obtain p where "PART_MAP_get (dict_get u ''part'' (JStr '''')) = Inr p"
      using PART_MAP_get_hashable by blast
    with Cons JDict show ?thesis by simp
  qed (use Cons in simp_all)
qed

text \<open>
  Where the loop returns, a dictionary entry puts one object in front of what the later
  entries give, and any other entry puts none: the objects are in the order of their entries.
\<close>

lemma parse_entries_dict_entry:
  "PART_MAP_get (dict_get t ''part'' (JStr '''')) = Inr part \<Longrightarrow> parse_entries ts [] = Inr vs \<Longrightarrow>
     parse_entries (JDict t # ts) [] = Inr (entry_violation t part # vs)"
  using parse_entries_acc[of ts "[entry_violation t part]"] by simp

lemma parse_entries_other_entry:
  "(\<forall>t. x \<noteq> JDict t) \<Longrightarrow> parse_entries (x # ts) acc = parse_entries ts acc"
  by (cases x) simp_all

lemma parse_entries_parts:
  "parse_entries ts acc = Inr vs \<Longrightarrow>
     \<forall>x \<in> set acc. parts x \<in> {PartSet {''means''}, PartSet {''ends''}, EmptyDict} \<Longrightarrow>
     x \<in> set vs \<Longrightarrow> parts x \<in> {PartSet {''means''}, PartSet {''ends''}, EmptyDict}"
proof (induction ts arbitrary: acc)
  case Nil
  then show ?case by simp
next
  case (Cons y ys)
  show ?case
  proof (cases y)
    case (JDict u)
    from Cons.prems(1) JDict obtain p where
      p: "PART_MAP_get (dict_get u ''part'' (JStr '''')) = Inr p" and
      rest: "parse_entries ys (acc @ [entry_violation u p]) = Inr vs"
      by (auto split: sum.splits)
    have "parts (entry_violation u p) \<in> {PartSet {''means''}, PartSet {''ends''}, EmptyDict}"
      using PART_MAP_get_values[OF p] by (auto simp: entry_violation_def parts_of_def)
    with Cons.prems(2) have
      "\<forall>x \<in> set (acc @ [entry_violation u p]). parts x \<in> {PartSet {''means''}, PartSet {''ends''}, EmptyDict}"
      by simp
    from Cons.IH[OF rest this Cons.prems(3)] show ?thesis .
  qed (use Cons in simp_all)
qed

section \<open>The parser as a whole\<close>

lemma collect_violations_absent:
  "map_of d ''violations'' = None \<Longrightarrow> collect_violations d = Inr []"
  by (simp add: collect_violations_def dict_get_def)

lemma collect_violations_not_list:
  "map_of d ''violations'' = Some x \<Longrightarrow> (\<forall>ts. x \<noteq> JList ts) \<Longrightarrow> collect_violations d = Inr []"
  by (cases x) (simp_all add: collect_violations_def dict_get_def)

lemma parser_non_dict:
  "(\<forall>d. raw_json \<noteq> JDict d) \<Longrightarrow> parser raw_json = Inr \<lparr>valid = JBool False, violations = []\<rparr>"
  by (cases raw_json) (simp_all add: parser_def)

lemma parser_dict:
  "parser (JDict d) =
     (case collect_violations d of
        Inl e \<Rightarrow> Inl e
      | Inr vios \<Rightarrow>
          Inr \<lparr>valid = coerce_valid (dict_get d ''valid'' (JBool False)),
               violations =
                 (if \<not> truthy (coerce_valid (dict_get d ''valid'' (JBool False))) \<and> vios = []
                  then [default_vio] else vios)\<rparr>)"
  by (simp add: parser_def Let_def split: sum.splits)

text \<open>On a dictionary, a verdict whose \<^verbatim>\<open>valid\<close> is false has a violation.\<close>

lemma parser_dict_placeholder:
  "parser (JDict d) = Inr v \<Longrightarrow> \<not> truthy (valid v) \<Longrightarrow> violations v \<noteq> []"
  by (auto simp: parser_dict split: sum.splits if_splits)

text \<open>The inputs on which the parser raises, and what it raises.\<close>

lemma parser_raises_iff:
  "parser raw_json = Inl e \<longleftrightarrow>
     e = TypeError \<and>
     (\<exists>d ts t. raw_json = JDict d \<and> map_of d ''violations'' = Some (JList ts) \<and>
        JDict t \<in> set ts \<and> \<not> hashable (dict_get t ''part'' (JStr '''')))"
  (is "?L \<longleftrightarrow> ?R")
proof
  assume L: ?L
  then obtain d where d: "raw_json = JDict d"
    by (cases raw_json) (simp_all add: parser_def)
  with L have cv: "collect_violations d = Inl e"
    by (simp add: parser_dict split: sum.splits)
  then obtain ts where ts: "map_of d ''violations'' = Some (JList ts)" and pe: "parse_entries ts [] = Inl e"
    by (auto simp: collect_violations_def dict_get_def split: option.splits json.splits)
  have "\<not> (\<forall>t. JDict t \<in> set ts \<longrightarrow> hashable (dict_get t ''part'' (JStr '''')))"
    using parse_entries_returns[of ts "[]"] pe by auto
  then obtain t where t: "JDict t \<in> set ts" "\<not> hashable (dict_get t ''part'' (JStr ''''))"
    by blast
  with pe have "e = TypeError"
    using parse_entries_raises[of t ts "[]"] by simp
  with d ts t show ?R by blast
next
  assume ?R
  then obtain d ts t where "e = TypeError" "raw_json = JDict d"
    "map_of d ''violations'' = Some (JList ts)" "JDict t \<in> set ts"
    "\<not> hashable (dict_get t ''part'' (JStr ''''))"
    by blast
  then show ?L
    using parse_entries_raises[of t ts "[]"]
    by (simp add: parser_dict collect_violations_def dict_get_def)
qed

text \<open>
  The \<^verbatim>\<open>parts\<close> of a returned violation: the set of one of the two names, or the empty
  dictionary.
\<close>

lemma parser_parts:
  assumes "parser raw_json = Inr v" and "x \<in> set (violations v)"
  shows "parts x \<in> {PartSet {''means''}, PartSet {''ends''}, EmptyDict}"
proof (cases raw_json)
  case (JDict d)
  with assms(1) obtain vios where cv: "collect_violations d = Inr vios"
    and v: "violations v = vios \<or> violations v = [default_vio]"
    by (auto simp: parser_dict split: sum.splits if_splits)
  from v show ?thesis
  proof
    assume "violations v = vios"
    with assms(2) have x: "x \<in> set vios" by simp
    show ?thesis
    proof (cases "dict_get d ''violations'' (JList [])")
      case (JList ts)
      with cv have "parse_entries ts [] = Inr vios" by (simp add: collect_violations_def)
      from parse_entries_parts[OF this _ x] show ?thesis by simp
    qed (use cv x in \<open>simp_all add: collect_violations_def\<close>)
  next
    assume "violations v = [default_vio]"
    with assms(2) show ?thesis by (simp add: default_vio_def)
  qed
qed (use assms in \<open>auto simp: parser_def\<close>)

lemma coerce_valid_cases:
  "coerce_valid JNull = JBool False"
  "coerce_valid (JStr s) = JBool (s = ''true'')"
  "coerce_valid (JBool b) = JBool b"
  "coerce_valid (JInt n) = JInt n"
  "coerce_valid (JFloat f) = JFloat f"
  "coerce_valid (JList xs) = JList xs"
  "coerce_valid (JDict m) = JDict m"
  by (simp_all add: coerce_valid_def)

section \<open>The two entry points\<close>

text \<open>
  With a non-empty \<^verbatim>\<open>means\<close>, \<^verbatim>\<open>__not_violated\<close> hands the model index to the parameter
  \<^verbatim>\<open>component\<close> of \<^verbatim>\<open>analyze_single\<close>, which reads \<^verbatim>\<open>.means\<close> on it: the call raises
  before the analyzer is reached, whatever the analyzer would do.
\<close>

lemma not_violated_nonempty_means:
  "means c = Some m \<Longrightarrow> m \<noteq> [] \<Longrightarrow> not_violated run client idx c s = (Inl AttributeError, s)"
  by (simp add: not_violated_def analyze_single_def)

text \<open>Called as its signature says, \<^verbatim>\<open>analyze_single\<close> invokes the analyzer once.\<close>

lemma analyze_single_component:
  "means c = Some m \<Longrightarrow>
     analyze_single run client idx (PyComponent c) s =
       (case run client idx [(''means'', Some m), (''ends'', ends c)] (world s) of
          (Inl e, w') \<Rightarrow>
            (Inl e,
             \<lparr>calls = calls s @ [(client, idx, [(''means'', Some m), (''ends'', ends c)])],
              world = w'\<rparr>)
        | (Inr (data, usage), w') \<Rightarrow>
            (Inr (violations data, usage),
             \<lparr>calls = calls s @ [(client, idx, [(''means'', Some m), (''ends'', ends c)])],
              world = w'\<rparr>))"
  by (simp add: analyze_single_def analyzer_run_def split: prod.splits sum.splits)

text \<open>
  The state in which a call of the comprehension starts is the one the calls before it
  leave: \<open>foldl\<close> threads it through \<^verbatim>\<open>analyze_single\<close> alone.
\<close>

lemma analyze_list_final_state:
  "fst (analyze_list run client idx cs s) = Inr rs \<Longrightarrow>
     snd (analyze_list run client idx cs s) =
       foldl (\<lambda>st c. snd (analyze_single run client idx c st)) s cs"
proof (induction cs arbitrary: rs s)
  case Nil
  show ?case by simp
next
  case (Cons c cs)
  obtain r0 s1 where single: "analyze_single run client idx c s = (r0, s1)"
    by (cases "analyze_single run client idx c s")
  obtain q s2 where rest: "analyze_list run client idx cs s1 = (q, s2)"
    by (cases "analyze_list run client idx cs s1")
  from Cons.prems single rest obtain r rs' where r: "r0 = Inr r" and q: "q = Inr rs'"
    by (auto split: sum.splits)
  from Cons.IH[of s1 rs'] rest q have "s2 = foldl (\<lambda>st c. snd (analyze_single run client idx c st)) s1 cs"
    by simp
  with single rest r q show ?case by simp
qed

lemma analyze_list_returns_iff:
  "fst (analyze_list run client idx cs s) = Inr rs \<longleftrightarrow>
     length rs = length cs \<and>
     (\<forall>i<length cs.
        fst (analyze_single run client idx (cs ! i)
               (foldl (\<lambda>st c. snd (analyze_single run client idx c st)) s (take i cs)))
          = Inr (rs ! i))"
proof (induction cs arbitrary: rs s)
  case Nil
  show ?case by auto
next
  case (Cons c cs)
  obtain r0 s1 where single: "analyze_single run client idx c s = (r0, s1)"
    by (cases "analyze_single run client idx c s")
  show ?case
  proof (cases r0)
    case (Inl e)
    with single show ?thesis by auto
  next
    case (Inr r)
    have "fst (analyze_list run client idx (c # cs) s) = Inr rs \<longleftrightarrow>
            (\<exists>rs'. rs = r # rs' \<and> fst (analyze_list run client idx cs s1) = Inr rs')"
      using single Inr
      by (cases "analyze_list run client idx cs s1") (auto split: sum.splits)
    also have "\<dots> \<longleftrightarrow> (\<exists>rs'. rs = r # rs' \<and> length rs' = length cs \<and>
            (\<forall>i<length cs.
               fst (analyze_single run client idx (cs ! i)
                      (foldl (\<lambda>st c. snd (analyze_single run client idx c st)) s1 (take i cs)))
                 = Inr (rs' ! i)))"
      using Cons.IH by simp
    also have "\<dots> \<longleftrightarrow> length rs = length (c # cs) \<and>
            (\<forall>i<length (c # cs).
               fst (analyze_single run client idx ((c # cs) ! i)
                      (foldl (\<lambda>st c. snd (analyze_single run client idx c st)) s (take i (c # cs))))
                 = Inr (rs ! i))"
      using single Inr
      by (cases rs) (auto simp: All_less_Suc2)
    finally show ?thesis .
  qed
qed

section \<open>The claims\<close>

text \<open>
  Claim C1: whenever the verdict returned by \<^verbatim>\<open>__parser\<close> has \<^verbatim>\<open>valid\<close> false, its list
  of violations is not empty, for every input, also one that is no dictionary.

  The code keeps this on dictionaries (\<open>parser_dict_placeholder\<close>) and not on the other
  inputs: line 88 returns before the placeholder of lines 110 and 111 is considered. An
  answer wrapped in a list gives the invalid verdict with no violation at all.
\<close>

theorem parser_list_input_no_placeholder:
  "parser (JList [JDict [(''valid'', JBool False)]]) = Inr \<lparr>valid = JBool False, violations = []\<rparr>"
  by (simp add: parser_def)

text \<open>
  Claim C2: for a component with a non-empty \<^verbatim>\<open>means\<close>, \<^verbatim>\<open>__not_violated\<close> returns the
  same pair as \<^verbatim>\<open>analyze_single(client, model_idx, component)\<close>.

  The code passes \<^verbatim>\<open>(client, component, model_idx)\<close>: with an analyzer that answers every
  call, \<^verbatim>\<open>analyze_single\<close> returns its pair and \<^verbatim>\<open>__not_violated\<close> raises
  \<^verbatim>\<open>AttributeError\<close>.
\<close>

theorem not_violated_swapped_arguments:
  "fst (not_violated (\<lambda>client idx vals w. (Inr (\<lparr>valid = JBool True, violations = []\<rparr>, None :: unit option), w))
          () 0 \<lparr>means = Some ''log in'', ends = Some ''see my data''\<rparr> \<lparr>calls = [], world = ()\<rparr>)
     = Inl AttributeError \<and>
   fst (analyze_single (\<lambda>client idx vals w. (Inr (\<lparr>valid = JBool True, violations = []\<rparr>, None :: unit option), w))
          () (PyInt 0) (PyComponent \<lparr>means = Some ''log in'', ends = Some ''see my data''\<rparr>)
          \<lparr>calls = [], world = ()\<rparr>)
     = Inr ([], None)"
  by (simp add: not_violated_def analyze_single_def analyzer_run_def)

text \<open>
  Claim C3: the \<^verbatim>\<open>parts\<close> of every violation of the verdict is a set of strings among
  \<^verbatim>\<open>"means"\<close> and \<^verbatim>\<open>"ends"\<close>: \<^verbatim>\<open>"[Means]"\<close> gives \<^verbatim>\<open>{"means"}\<close>, \<^verbatim>\<open>"[Ends]"\<close> gives
  \<^verbatim>\<open>{"ends"}\<close>, and any other \<^verbatim>\<open>"part"\<close> gives the empty set.

  A \<^verbatim>\<open>"part"\<close> that names both halves in a list is another value, and it gives no
  violation: looking it up in \<^verbatim>\<open>_PART_MAP\<close> raises \<^verbatim>\<open>TypeError\<close>. (Where the parser
  returns, \<open>parser_parts\<close> gives the three values \<^verbatim>\<open>parts\<close> can have.)
\<close>

theorem parser_part_list_raises:
  "parser (JDict [(''valid'', JBool False),
                  (''violations'', JList [JDict [(''part'', JList [JStr ''[Means]'', JStr ''[Ends]'']),
                                                 (''issue'', JStr ''vague''),
                                                 (''suggestion'', JStr ''split the story'')]])])
     = Inl TypeError"
  by (simp add: parser_def collect_violations_def dict_get_def coerce_valid_def)

text \<open>
  Claim C4: the field \<^verbatim>\<open>valid\<close> of the returned verdict is a boolean, whatever the value
  of the key \<^verbatim>\<open>"valid"\<close>.

  Lines 90 to 94 coerce strings and \<^verbatim>\<open>None\<close> only (\<open>coerce_valid_cases\<close>): a number or a
  dictionary under \<^verbatim>\<open>"valid"\<close> is stored as it is.
\<close>

theorem parser_valid_not_boolean:
  "parser (JDict [(''valid'', JInt 1)]) = Inr \<lparr>valid = JInt 1, violations = []\<rparr> \<and>
   parser (JDict [(''valid'', JDict [(''means'', JBool True), (''ends'', JBool False)])])
     = Inr \<lparr>valid = JDict [(''means'', JBool True), (''ends'', JBool False)], violations = []\<rparr>"
  by (simp add: parser_def collect_violations_def dict_get_def coerce_valid_def)

text \<open>
  Claim C5: \<^verbatim>\<open>__parser\<close> returns a verdict for every JSON-like input without raising; an
  input that is no dictionary gives the default verdict, and a \<^verbatim>\<open>"violations"\<close> that is no
  list counts as absent.

  The last two parts hold (\<open>parser_non_dict\<close>, \<open>collect_violations_not_list\<close> and
  \<open>collect_violations_absent\<close>). The first does not: an entry whose \<^verbatim>\<open>"part"\<close> is a list
  makes the parser raise \<^verbatim>\<open>TypeError\<close>; \<open>parser_raises_iff\<close> gives all such inputs.
\<close>

theorem parser_not_total:
  "parser (JDict [(''violations'', JList [JDict [(''part'', JList [])]])]) = Inl TypeError"
  by (simp add: parser_def collect_violations_def dict_get_def coerce_valid_def)

text \<open>
  Claim C6: every dictionary entry of \<^verbatim>\<open>"violations"\<close> contributes exactly one violation
  with the entry's \<^verbatim>\<open>"issue"\<close> (or the empty string) and \<^verbatim>\<open>"suggestion"\<close> (or null), other
  entries are skipped, and the order of the entries is kept.

  This is what the loop does as long as it returns (\<open>parse_entries_dict_entry\<close>,
  \<open>parse_entries_other_entry\<close>). When a later entry has a \<^verbatim>\<open>"part"\<close> that cannot be
  hashed, the well-formed entry before it contributes nothing either: the parser raises.
\<close>

theorem parser_entries_lost_on_raise:
  "parser (JDict [(''valid'', JBool False),
                  (''violations'',
                   JList [JDict [(''part'', JStr ''[Means]''), (''issue'', JStr ''too broad''),
                                 (''suggestion'', JStr ''narrow it'')],
                          JDict [(''part'', JDict [(''name'', JStr ''[Ends]'')]),
                                 (''issue'', JStr ''no benefit'')]])])
     = Inl TypeError"
  by (simp add: parser_def collect_violations_def dict_get_def coerce_valid_def PART_MAP_def)

text \<open>
  Claim C7: \<^verbatim>\<open>analyze_list\<close> is the pointwise map of \<^verbatim>\<open>analyze_single\<close>: the result has
  the length of the input and its \<open>i\<close>-th element is \<^verbatim>\<open>analyze_single\<close> of the \<open>i\<close>-th
  component, in the same order.

  The calls run one after the other: the \<open>i\<close>-th call of \<^verbatim>\<open>analyze_single\<close> starts in the
  state that the calls of \<^verbatim>\<open>analyze_single\<close> on the first \<open>i\<close> components leave, one from
  the other, from the initial state. \<^verbatim>\<open>analyze_list\<close> returns the list \<open>rs\<close> exactly when
  \<open>rs\<close> has the length of the input and each of these calls returns the element of \<open>rs\<close>
  at its place; the state it then leaves is the one after the last call.
\<close>

theorem analyze_list_pointwise:
  "(fst (analyze_list run client idx cs s) = Inr rs \<longleftrightarrow>
      length rs = length cs \<and>
      (\<forall>i<length cs.
         fst (analyze_single run client idx (cs ! i)
                (foldl (\<lambda>st c. snd (analyze_single run client idx c st)) s (take i cs)))
           = Inr (rs ! i))) \<and>
   (fst (analyze_list run client idx cs s) = Inr rs \<longrightarrow>
      snd (analyze_list run client idx cs s) =
        foldl (\<lambda>st c. snd (analyze_single run client idx c st)) s cs)"
proof (rule conjI)
  show "fst (analyze_list run client idx cs s) = Inr rs \<longleftrightarrow>
      length rs = length cs \<and>
      (\<forall>i<length cs.
         fst (analyze_single run client idx (cs ! i)
                (foldl (\<lambda>st c. snd (analyze_single run client idx c st)) s (take i cs)))
           = Inr (rs ! i))"
    by (rule analyze_list_returns_iff)
  show "fst (analyze_list run client idx cs s) = Inr rs \<longrightarrow>
      snd (analyze_list run client idx cs s) =
        foldl (\<lambda>st c. snd (analyze_single run client idx c st)) s cs"
    by (simp add: analyze_list_final_state)
qed

theorem analyze_list_pointwise_witness:
  "fst (analyze_single (\<lambda>client idx vals w. (Inr (\<lparr>valid = JBool True, violations = []\<rparr>, Some w), Suc w))
          () (PyInt 0)
          ([PyComponent \<lparr>means = Some ''log in'', ends = None\<rparr>,
            PyComponent \<lparr>means = Some ''log out'', ends = Some ''x''\<rparr>] ! 1)
          (foldl (\<lambda>st c. snd (analyze_single
                    (\<lambda>client idx vals w. (Inr (\<lparr>valid = JBool True, violations = []\<rparr>, Some w), Suc w))
                    () (PyInt 0) c st))
             \<lparr>calls = [], world = 0\<rparr>
             (take 1 [PyComponent \<lparr>means = Some ''log in'', ends = None\<rparr>,
                      PyComponent \<lparr>means = Some ''log out'', ends = Some ''x''\<rparr>])))
     = Inr ([], Some (1::nat)) \<and>
   fst (analyze_list (\<lambda>client idx vals w. (Inr (\<lparr>valid = JBool True, violations = []\<rparr>, Some w), Suc w))
          () (PyInt 0)
          [PyComponent \<lparr>means = Some ''log in'', ends = None\<rparr>,
           PyComponent \<lparr>means = Some ''log out'', ends = Some ''x''\<rparr>]
          \<lparr>calls = [], world = 0\<rparr>)
     = Inr [([], Some (0::nat)), ([], Some 1)] \<and>
   snd (analyze_list (\<lambda>client idx vals w. (Inr (\<lparr>valid = JBool True, violations = []\<rparr>, Some w), Suc w))
          () (PyInt 0)
          [PyComponent \<lparr>means = Some ''log in'', ends = None\<rparr>,
           PyComponent \<lparr>means = Some ''log out'', ends = Some ''x''\<rparr>]
          \<lparr>calls = [], world = 0\<rparr>)
     = \<lparr>calls = [((), PyInt 0, [(''means'', Some ''log in''), (''ends'', None)]),
                 ((), PyInt 0, [(''means'', Some ''log out''), (''ends'', Some ''x'')])],
        world = 2::nat\<rparr>"
proof -
  let ?run = "\<lambda>(client::unit) (idx::pyarg) (vals::prompt_values) (w::nat).
                (Inr (\<lparr>valid = JBool True, violations = []\<rparr>, Some w) :: error + CSVerdictData \<times> nat option, Suc w)"
  let ?cs = "[PyComponent \<lparr>means = Some ''log in'', ends = None\<rparr>,
              PyComponent \<lparr>means = Some ''log out'', ends = Some ''x''\<rparr>]"
  let ?rs = "[([], Some (0::nat)), ([], Some 1)] :: (Violation list \<times> nat option) list"
  let ?s = "\<lparr>calls = [], world = 0::nat\<rparr> :: (unit, nat) session"
  let ?step = "\<lambda>st c. snd (analyze_single ?run () (PyInt 0) c st)"
  have second: "fst (analyze_single ?run () (PyInt 0) (?cs ! 1) (foldl ?step ?s (take 1 ?cs)))
                  = Inr ([], Some (1::nat))"
    by (simp add: analyze_single_def analyzer_run_def)
  have each: "length ?rs = length ?cs \<and>
      (\<forall>i<length ?cs.
         fst (analyze_single ?run () (PyInt 0) (?cs ! i) (foldl ?step ?s (take i ?cs)))
           = Inr (?rs ! i))"
    by (simp add: All_less_Suc analyze_single_def analyzer_run_def)
  note th = analyze_list_pointwise[of ?run "()" "PyInt 0" ?cs ?s ?rs]
  from th each have returned: "fst (analyze_list ?run () (PyInt 0) ?cs ?s) = Inr ?rs"
    by (rule conjunct1[THEN iffD2])
  from th returned have "snd (analyze_list ?run () (PyInt 0) ?cs ?s) = foldl ?step ?s ?cs"
    by (rule conjunct2[THEN mp])
  then have final: "snd (analyze_list ?run () (PyInt 0) ?cs ?s) =
      \<lparr>calls = [((), PyInt 0, [(''means'', Some ''log in''), (''ends'', None)]),
                 ((), PyInt 0, [(''means'', Some ''log out''), (''ends'', Some ''x'')])],
        world = 2::nat\<rparr>"
    by (simp add: analyze_single_def analyzer_run_def)
  from second returned final show ?thesis by (intro conjI)
qed

text \<open>
  Claim C8: for a component whose \<^verbatim>\<open>means\<close> is \<^verbatim>\<open>None\<close>, \<^verbatim>\<open>analyze_single\<close> returns the
  empty list of violations and \<^verbatim>\<open>None\<close>, without invoking the analyzer or the client.

  The result is the same for every \<open>run\<close>, and the state is returned as it was: no call is
  recorded and the world outside is untouched.
\<close>

theorem analyze_single_means_None:
  "means c = None \<Longrightarrow> analyze_single run client model_idx (PyComponent c) s = (Inr ([], None), s)"
  by (simp add: analyze_single_def)

theorem analyze_single_means_None_witness:
  "means \<lparr>means = None, ends = Some ''see my data''\<rparr> = None \<and>
   analyze_single (\<lambda>client idx vals w. (Inl (ExternalError ''invoked''), Suc w)) () (PyInt 0)
       (PyComponent \<lparr>means = None, ends = Some ''see my data''\<rparr>) \<lparr>calls = [], world = 0::nat\<rparr>
     = (Inr ([], None :: unit option), \<lparr>calls = [], world = 0\<rparr>)"
  using analyze_single_means_None[of "\<lparr>means = None, ends = Some ''see my data''\<rparr>"
      "\<lambda>client idx vals w. (Inl (ExternalError ''invoked''), Suc w)" "()" "PyInt 0"
      "\<lparr>calls = [], world = 0::nat\<rparr>"]
  by simp

text \<open>
  Claim C9: a string under \<^verbatim>\<open>"valid"\<close> is compared with \<^verbatim>\<open>"true"\<close> exactly: it parses to
  true if and only if it is \<^verbatim>\<open>"true"\<close>, and \<^verbatim>\<open>"True"\<close> or \<^verbatim>\<open>"TRUE"\<close> parse to false.

  For a dictionary with a string \<open>s\<close> under \<^verbatim>\<open>"valid"\<close>, the verdict's \<^verbatim>\<open>valid\<close> is the
  boolean \<open>s = ''true''\<close>; the parser returns no verdict only where collecting the violations
  raises.
\<close>

theorem valid_string_exact_match:
  "map_of d ''valid'' = Some (JStr s) \<Longrightarrow>
     (case parser (JDict d) of
        Inr v \<Rightarrow> valid v = JBool (s = ''true'')
      | Inl e \<Rightarrow> collect_violations d = Inl e)"
  by (simp add: parser_dict dict_get_def coerce_valid_def split: sum.splits)

theorem valid_string_exact_match_witness:
  "map_of [(''valid'', JStr ''True'')] ''valid'' = Some (JStr ''True'') \<and>
   (\<exists>v. parser (JDict [(''valid'', JStr ''True'')]) = Inr v \<and> valid v = JBool False)"
proof -
  have h: "map_of [(''valid'', JStr ''True'')] ''valid'' = Some (JStr ''True'')" by simp
  have r: "\<exists>v. parser (JDict [(''valid'', JStr ''True'')]) = Inr v"
    by (simp add: parser_dict collect_violations_def dict_get_def)
  from valid_string_exact_match[OF h] r h show ?thesis
    by (auto split: sum.splits)
qed

text \<open>
  Claim C10: for a component whose \<^verbatim>\<open>means\<close> is the empty string, \<^verbatim>\<open>__not_violated\<close>
  returns the empty list and \<^verbatim>\<open>None\<close> without invoking the parser, whereas
  \<^verbatim>\<open>analyze_single\<close> on the same component does not skip and invokes the analyzer.

  \<^verbatim>\<open>__not_violated\<close> returns the state as it was; \<^verbatim>\<open>analyze_single\<close> records one call of
  the analyzer, with the empty string under \<^verbatim>\<open>"means"\<close>, and returns what that call gives.
\<close>

theorem empty_means_entry_points:
  "means c = Some [] \<Longrightarrow>
     not_violated run client idx c s = (Inr ([], None), s) \<and>
     calls (snd (analyze_single run client (PyInt idx) (PyComponent c) s)) =
       calls s @ [(client, PyInt idx, [(''means'', Some []), (''ends'', ends c)])] \<and>
     fst (analyze_single run client (PyInt idx) (PyComponent c) s) =
       map_sum id (\<lambda>(data, usage). (violations data, usage))
         (fst (run client (PyInt idx) [(''means'', Some []), (''ends'', ends c)] (world s)))"
  by (auto simp: not_violated_def analyze_single_def analyzer_run_def split: prod.splits sum.splits)

theorem empty_means_entry_points_witness:
  "means \<lparr>means = Some [], ends = Some ''see my data''\<rparr> = Some [] \<and>
   not_violated (\<lambda>client idx vals w. (Inr (\<lparr>valid = JBool True, violations = []\<rparr>, Some w), Suc w))
       () 0 \<lparr>means = Some [], ends = Some ''see my data''\<rparr> \<lparr>calls = [], world = 0::nat\<rparr>
     = (Inr ([], None), \<lparr>calls = [], world = 0\<rparr>) \<and>
   calls (snd (analyze_single (\<lambda>client idx vals w. (Inr (\<lparr>valid = JBool True, violations = []\<rparr>, Some w), Suc w))
       () (PyInt 0) (PyComponent \<lparr>means = Some [], ends = Some ''see my data''\<rparr>)
       \<lparr>calls = [], world = 0::nat\<rparr>))
     = [((), PyInt 0, [(''means'', Some []), (''ends'', Some ''see my data'')])]"
  using empty_means_entry_points[of "\<lparr>means = Some [], ends = Some ''see my data''\<rparr>"
      "\<lambda>client idx vals w. (Inr (\<lparr>valid = JBool True, violations = []\<rparr>, Some w), Suc w)" "()" 0
      "\<lparr>calls = [], world = 0::nat\<rparr>"]
  by simp

end
